theory Spec2Isabelle
  imports Main "HOL-Library.AList" "HOL-Library.Sublist"
begin

section \<open>Python values used by \<open>image_builds/opensearch/agent.py\<close>\<close>

text \<open>
  A Python \<open>str\<close> is a sequence of Unicode code points and \<open>len\<close> counts code points,
  so a \<open>str\<close> is a list of code points here. \<open>str\<close> embeds an ASCII literal of the
  source. A \<open>bytes\<close> object is a list of byte values.
\<close>

type_synonym pystr = "nat list"
type_synonym pybytes = "nat list"

definition str :: "string \<Rightarrow> pystr" where
  "str s = map of_char s"

text \<open>
  A \<open>dict\<close> with \<open>str\<close> keys and \<open>str\<close> values keeps its keys in insertion order:
  an association list with distinct keys. \<open>d[k] = v\<close> is \<open>AList.update k v d\<close>
  (in place when the key is there, appended otherwise), \<open>d.pop(k, None)\<close> is
  \<open>AList.delete k d\<close>, and \<open>d.get(k, default)\<close> is \<open>dict_get\<close>.
\<close>

type_synonym pydict = "(pystr \<times> pystr) list"

definition dict_get :: "pydict \<Rightarrow> pystr \<Rightarrow> pystr \<Rightarrow> pystr" where
  "dict_get d k dflt = (case map_of d k of None \<Rightarrow> dflt | Some v \<Rightarrow> v)"

text \<open>
  Dicts are mutable objects passed by reference. The object store is a list of dicts,
  a reference is an index into it, and \<open>dict(doc)\<close> allocates a new object with the
  same items.
\<close>

type_synonym heap = "pydict list"
type_synonym ref = nat

definition alloc :: "heap \<Rightarrow> pydict \<Rightarrow> heap \<times> ref" where
  "alloc h d = (h @ [d], length h)"

datatype py_exn = ConnectionError | HTTPError | JSONDecodeError | ChunkedEncodingError | OSError

datatype level = DEBUG | INFO | ERROR

text \<open>
  What the agent does to the outside, in order: a call of the logger (level and format
  string), a line printed to standard output (the dict given to \<open>json.dumps\<close>), a call of
  \<open>opensearch_client.index\<close> (index name and body), and the call \<open>send_log(doc)\<close> itself
  as made by a worker.
\<close>

datatype effect =
    Log level string
  | Print pydict
  | Index pystr pydict
  | SendLog pydict

section \<open>The clock: \<open>time.strftime\<close>\<close>

text \<open>
  \<open>time.strftime(format)\<close> without a time tuple formats \<open>time.localtime()\<close>. An instant
  is the number of seconds since the epoch together with the offset of the local zone
  in effect then (seconds east of UTC). The broken-down time follows the proleptic
  Gregorian calendar.
\<close>

record instant =
  epoch :: int
  gmtoff :: int

record struct_time =
  tm_year :: int
  tm_mon :: int
  tm_mday :: int
  tm_hour :: int
  tm_min :: int
  tm_sec :: int
  tm_gmtoff :: int

definition civil_from_days :: "int \<Rightarrow> int \<times> int \<times> int" where
  "civil_from_days z0 =
     (let z = z0 + 719468;
          era = z div 146097;
          doe = z mod 146097;
          yoe = (doe - doe div 1460 + doe div 36524 - doe div 146096) div 365;
          doy = doe - (365 * yoe + yoe div 4 - yoe div 100);
          mp = (5 * doy + 2) div 153;
          d = doy - (153 * mp + 2) div 5 + 1;
          m = (if mp < 10 then mp + 3 else mp - 9);
          y = yoe + era * 400 + (if m \<le> 2 then 1 else 0)
      in (y, m, d))"

definition broken_down :: "int \<Rightarrow> int \<Rightarrow> struct_time" where
  "broken_down secs off =
     (case civil_from_days (secs div 86400) of
        (y, m, d) \<Rightarrow>
          \<lparr>tm_year = y, tm_mon = m, tm_mday = d,
           tm_hour = (secs mod 86400) div 3600,
           tm_min = (secs mod 3600) div 60,
           tm_sec = secs mod 60,
           tm_gmtoff = off\<rparr>)"

definition gmtime :: "instant \<Rightarrow> struct_time" where
  "gmtime i = broken_down (epoch i) 0"

definition localtime :: "instant \<Rightarrow> struct_time" where
  "localtime i = broken_down (epoch i + gmtoff i) (gmtoff i)"

fun digits :: "nat \<Rightarrow> pystr" where
  "digits n = (if n < 10 then [48 + n] else digits (n div 10) @ [48 + n mod 10])"

declare digits.simps [simp del]

definition pad2 :: "int \<Rightarrow> pystr" where
  "pad2 n = (if n < 10 then 48 # digits (nat n) else digits (nat n))"

text \<open>The directives the agent uses; any other one is left as it stands.\<close>

definition directive :: "char \<Rightarrow> struct_time \<Rightarrow> pystr" where
  "directive c t =
     (if c = CHR ''Y'' then digits (nat (tm_year t))
      else if c = CHR ''m'' then pad2 (tm_mon t)
      else if c = CHR ''d'' then pad2 (tm_mday t)
      else if c = CHR ''H'' then pad2 (tm_hour t)
      else if c = CHR ''M'' then pad2 (tm_min t)
      else if c = CHR ''S'' then pad2 (tm_sec t)
      else if c = CHR ''z'' then
        (if tm_gmtoff t < 0 then str ''-'' else str ''+'')
          @ pad2 (\<bar>tm_gmtoff t\<bar> div 3600) @ pad2 ((\<bar>tm_gmtoff t\<bar> mod 3600) div 60)
      else [of_char CHR ''%'', of_char c])"

fun strftime :: "string \<Rightarrow> struct_time \<Rightarrow> pystr" where
  "strftime [] t = []"
| "strftime [c] t = [of_char c]"
| "strftime (c # d # fs) t =
     (if c = CHR ''%'' then directive d t @ strftime fs t
      else of_char c # strftime (d # fs) t)"

section \<open>Configuration\<close>

text \<open>
  The module-level constants read once from the environment. \<open>AGENT_MODE\<close> is stored
  lower-cased, as the module does. \<open>opensearch_client\<close> is \<open>None\<close> unless the mode is
  \<open>opensearch\<close> and the client was constructed; the client is represented by its URL.
\<close>

record config =
  OPENSEARCH_INDEX_PREFIX :: pystr
  NODE_NAME :: pystr
  AGENT_MODE :: pystr
  opensearch_client :: "pystr option"

section \<open>\<open>send_log\<close>\<close>

text \<open>
  What the environment decides during one call of \<open>send_log\<close>: the instant at which
  \<open>time.strftime\<close> is called, and whether the write (the \<open>print\<close>, or the call of
  \<open>opensearch_client.index\<close>) succeeds or raises.
\<close>

record sink_io =
  send_time :: instant
  sink_ok :: bool

text \<open>
  \<open>send_log cfg io h doc\<close> is the call \<open>send_log(doc)\<close> on the store \<open>h\<close>: the store after
  the call, what was done, and the exception that leaves the function, if any. In local
  mode nothing catches a failing \<open>print\<close>; in OpenSearch mode the \<open>try\<close> around
  \<open>opensearch_client.index\<close> logs the failure.
\<close>

definition send_log :: "config \<Rightarrow> sink_io \<Rightarrow> heap \<Rightarrow> ref \<Rightarrow> heap \<times> effect list \<times> py_exn option" where
  "send_log cfg io h doc =
     (if AGENT_MODE cfg = str ''local'' then
        (let msg = dict_get (h ! doc) (str ''message'') (str '''');
             (h1, doc_print) = alloc h (h ! doc);
             h2 = (if length msg > 300
                   then h1[doc_print := AList.update (str ''message'')
                                          (take 300 msg @ str ''...[truncated]'') (h1 ! doc_print)]
                   else h1)
         in (h2, [Print (h2 ! doc_print)], if sink_ok io then None else Some OSError))
      else if opensearch_client cfg = None then
        (h, [Log ERROR ''OpenSearch client not initialized, cannot send log''], None)
      else
        (let index_name = OPENSEARCH_INDEX_PREFIX cfg @ str ''-''
                            @ strftime ''%Y.%m.%d'' (localtime (send_time io))
         in if sink_ok io then (h, [Index index_name (h ! doc)], None)
            else (h, [Index index_name (h ! doc), Log ERROR ''Failed to index log line: %s''], None)))"

section \<open>\<open>list_containers\<close>\<close>

text \<open>
  The answer of the list endpoint, after \<open>r.json()\<close>: an array of objects. The agent
  reads three fields of each, \<open>Id\<close>, \<open>ID\<close> and \<open>Names\<close>; \<open>c.get\<close> gives \<open>None\<close> for a
  field that is missing (or null). \<open>list_containers\<close> is annotated \<open>Dict[str, str]\<close>:
  identifiers and names are strings, \<open>Names\<close> is an array of strings.
\<close>

record container_json =
  c_Id :: "pystr option"
  c_ID :: "pystr option"
  c_Names :: "pystr list option"

text \<open>Python truth of an optional string or list, and \<open>a or b\<close>.\<close>

definition truthy :: "'a list option \<Rightarrow> bool" where
  "truthy v = (case v of None \<Rightarrow> False | Some xs \<Rightarrow> xs \<noteq> [])"

definition py_or :: "'a list option \<Rightarrow> 'a list option \<Rightarrow> 'a list option" where
  "py_or a b = (if truthy a then a else b)"

text \<open>
  The outcome of a \<open>GET\<close> on the socket: \<open>session.get\<close> raises, or there is a response
  with a status code and a body (\<open>None\<close> when \<open>r.json()\<close> cannot decode it).
  \<open>raise_for_status\<close> raises on a status from 400 to 599.
\<close>

datatype list_response = ListFailed | ListResponse nat "container_json list option"

definition fetch_containers :: "list_response \<Rightarrow> py_exn + container_json list" where
  "fetch_containers r =
     (case r of
        ListFailed \<Rightarrow> Inl ConnectionError
      | ListResponse status body \<Rightarrow>
          if 400 \<le> status \<and> status < 600 then Inl HTTPError
          else (case body of None \<Rightarrow> Inl JSONDecodeError | Some containers \<Rightarrow> Inr containers))"

definition container_name :: "container_json \<Rightarrow> pystr option \<Rightarrow> pystr" where
  "container_name c cid =
     (case py_or (c_Names c) (Some []) of
        Some (n # ns) \<Rightarrow> n
      | _ \<Rightarrow> (case cid of
                Some (x # xs) \<Rightarrow> take 12 (x # xs)
              | _ \<Rightarrow> str ''unknown''))"

fun collect :: "container_json list \<Rightarrow> pydict \<Rightarrow> pydict" where
  "collect [] out = out"
| "collect (c # cs) out =
     (let cid = py_or (c_Id c) (c_ID c);
          name = container_name c cid
      in case cid of
           Some (x # xs) \<Rightarrow> collect cs (AList.update (x # xs) name out)
         | _ \<Rightarrow> collect cs out)"

definition list_containers :: "list_response \<Rightarrow> pydict \<times> effect list \<times> py_exn option" where
  "list_containers r =
     (case fetch_containers r of
        Inl e \<Rightarrow> ([], [Log ERROR ''Error listing containers via Podman API: %s''], None)
      | Inr containers \<Rightarrow> (collect containers [], [], None))"

section \<open>\<open>stream_logs\<close>\<close>

text \<open>
  \<open>raw_line.decode("utf-8", errors="replace")\<close>: every maximal ill-formed part of the
  input becomes one U+FFFD and decoding goes on behind it, so the call never raises
  (and the \<open>except\<close> branch with \<open>str(raw_line)\<close> is never taken).
\<close>

definition cont :: "nat \<Rightarrow> bool" where
  "cont b = (128 \<le> b \<and> b \<le> 191)"

text \<open>The range of the second byte after the lead byte of a three- or four-byte form.\<close>

definition second_ok :: "nat \<Rightarrow> nat \<Rightarrow> bool" where
  "second_ok b c =
     (if b = 224 then 160 \<le> c \<and> c \<le> 191
      else if b = 237 then 128 \<le> c \<and> c \<le> 159
      else if b = 240 then 144 \<le> c \<and> c \<le> 191
      else if b = 244 then 128 \<le> c \<and> c \<le> 143
      else cont c)"

fun decode_utf8 :: "pybytes \<Rightarrow> pystr" where
  "decode_utf8 [] = []"
| "decode_utf8 (b # bs) =
     (if b < 128 then b # decode_utf8 bs
      else if 194 \<le> b \<and> b \<le> 223 then
        (case bs of
           [] \<Rightarrow> [65533]
         | c1 # r1 \<Rightarrow>
             if cont c1 then ((b - 192) * 64 + (c1 - 128)) # decode_utf8 r1
             else 65533 # decode_utf8 bs)
      else if 224 \<le> b \<and> b \<le> 239 then
        (case bs of
           [] \<Rightarrow> [65533]
         | c1 # r1 \<Rightarrow>
             if second_ok b c1 then
               (case r1 of
                  [] \<Rightarrow> [65533]
                | c2 # r2 \<Rightarrow>
                    if cont c2
                    then ((b - 224) * 4096 + (c1 - 128) * 64 + (c2 - 128)) # decode_utf8 r2
                    else 65533 # decode_utf8 r1)
             else 65533 # decode_utf8 bs)
      else if 240 \<le> b \<and> b \<le> 244 then
        (case bs of
           [] \<Rightarrow> [65533]
         | c1 # r1 \<Rightarrow>
             if second_ok b c1 then
               (case r1 of
                  [] \<Rightarrow> [65533]
                | c2 # r2 \<Rightarrow>
                    if cont c2 then
                      (case r2 of
                         [] \<Rightarrow> [65533]
                       | c3 # r3 \<Rightarrow>
                           if cont c3
                           then ((b - 240) * 262144 + (c1 - 128) * 4096 + (c2 - 128) * 64
                                   + (c3 - 128)) # decode_utf8 r3
                           else 65533 # decode_utf8 r2)
                    else 65533 # decode_utf8 r1)
             else 65533 # decode_utf8 bs)
      else 65533 # decode_utf8 bs)"

text \<open>
  One line yielded by \<open>r.iter_lines()\<close>, with what the environment decides while the
  worker handles it: the instant of the \<open>time.strftime\<close> call for \<open>@timestamp\<close>, and the
  answers to the \<open>send_log\<close> call. The iteration ends when the connection is closed
  (\<open>EOF\<close>) or raises while reading (\<open>Broken\<close>).
\<close>

record line_io =
  raw_line :: pybytes
  doc_time :: instant
  sink :: sink_io

datatype stream_end = EOF | Broken

datatype log_stream = OpenFailed | Opened nat "line_io list" stream_end

definition make_doc :: "config \<Rightarrow> pystr \<Rightarrow> pystr \<Rightarrow> line_io \<Rightarrow> pydict" where
  "make_doc cfg container_id name l =
     [(str ''@timestamp'', strftime ''%Y-%m-%dT%H:%M:%S%z'' (localtime (doc_time l))),
      (str ''message'', decode_utf8 (raw_line l)),
      (str ''container_id'', container_id),
      (str ''container_name'', name),
      (str ''node'', NODE_NAME cfg)]"

text \<open>The \<open>for\<close> loop over the lines; an exception leaving \<open>send_log\<close> leaves the loop.\<close>

fun stream_lines ::
  "config \<Rightarrow> pystr \<Rightarrow> pystr \<Rightarrow> stream_end \<Rightarrow> line_io list \<Rightarrow> heap
     \<Rightarrow> heap \<times> effect list \<times> py_exn option" where
  "stream_lines cfg container_id name e [] h =
     (h, [], case e of EOF \<Rightarrow> None | Broken \<Rightarrow> Some ChunkedEncodingError)"
| "stream_lines cfg container_id name e (l # ls) h =
     (if raw_line l = [] then stream_lines cfg container_id name e ls h
      else
        (case alloc h (make_doc cfg container_id name l) of
           (h1, doc) \<Rightarrow>
             (case send_log cfg (sink l) h1 doc of
                (h2, tr, Some x) \<Rightarrow> (h2, SendLog (h1 ! doc) # tr, Some x)
              | (h2, tr, None) \<Rightarrow>
                  (case stream_lines cfg container_id name e ls h2 of
                     (h3, tr', r) \<Rightarrow> (h3, SendLog (h1 ! doc) # tr @ tr', r)))))"

text \<open>The body of the \<open>try\<close>: open the stream, check the status, read the lines.\<close>

definition stream_body ::
  "config \<Rightarrow> pystr \<Rightarrow> pystr \<Rightarrow> log_stream \<Rightarrow> heap \<Rightarrow> heap \<times> effect list \<times> py_exn option" where
  "stream_body cfg container_id name s h =
     (case s of
        OpenFailed \<Rightarrow> (h, [], Some ConnectionError)
      | Opened status ls e \<Rightarrow>
          if 400 \<le> status \<and> status < 600 then (h, [], Some HTTPError)
          else stream_lines cfg container_id name e ls h)"

text \<open>\<open>except Exception as e: logger.error(msg, ...)\<close> around a block.\<close>

definition except_log ::
  "string \<Rightarrow> heap \<times> effect list \<times> py_exn option \<Rightarrow> heap \<times> effect list \<times> py_exn option" where
  "except_log msg r =
     (case r of
        (h, tr, None) \<Rightarrow> (h, tr, None)
      | (h, tr, Some e) \<Rightarrow> (h, tr @ [Log ERROR msg], None))"

text \<open>The records handed to \<open>send_log\<close>, in order, as read off what a worker did.\<close>

fun sent :: "effect list \<Rightarrow> pydict list" where
  "sent [] = []"
| "sent (SendLog d # tr) = d # sent tr"
| "sent (x # tr) = sent tr"

definition stream_logs ::
  "config \<Rightarrow> pystr \<Rightarrow> pystr \<Rightarrow> log_stream \<Rightarrow> heap \<Rightarrow> heap \<times> effect list \<times> py_exn option" where
  "stream_logs cfg container_id name s h =
     (case except_log ''Error streaming logs for %s (%s): %s''
             (stream_body cfg container_id name s h) of
        (h', tr, r) \<Rightarrow>
          (h', Log INFO ''Starting log stream for %s (%s)'' # tr
                 @ [Log INFO ''Log stream ended for %s (%s)''], r))"

section \<open>\<open>main\<close>: the discovery loop\<close>

text \<open>
  A \<open>threading.Thread\<close> started by \<open>main\<close>: the arguments of its \<open>stream_logs\<close> call and
  whether it is alive, that is, whether that call has not returned yet (\<open>start\<close> is taken
  to succeed). \<open>pool\<close> holds
  every thread started so far; a thread handle is its index there. \<open>active_streams\<close>
  and \<open>threads\<close> are the two local variables of \<open>main\<close>.
\<close>

record thread =
  target_cid :: pystr
  target_name :: pystr
  alive :: bool

record main_state =
  active_streams :: "pystr set"
  threads :: "(pystr \<times> nat) list"
  pool :: "thread list"

definition init_state :: main_state where
  "init_state = \<lparr>active_streams = {}, threads = [], pool = []\<rparr>"

definition is_alive :: "thread list \<Rightarrow> nat \<Rightarrow> bool" where
  "is_alive p t = (t < length p \<and> alive (p ! t))"

text \<open>
  The body of \<open>if cid not in active_streams\<close>: a new thread is created and started, and
  recorded in both variables.
\<close>

definition start_worker :: "pystr \<Rightarrow> pystr \<Rightarrow> main_state \<Rightarrow> main_state" where
  "start_worker cid name s =
     s\<lparr>pool := pool s @ [\<lparr>target_cid = cid, target_name = name, alive = True\<rparr>],
       active_streams := insert cid (active_streams s),
       threads := AList.update cid (length (pool s)) (threads s)\<rparr>"

text \<open>The \<open>for cid, name in containers.items()\<close> loop.\<close>

fun start_workers :: "pydict \<Rightarrow> main_state \<Rightarrow> main_state \<times> effect list" where
  "start_workers [] s = (s, [])"
| "start_workers ((cid, name) # cs) s =
     (if cid \<notin> active_streams s then
        (case start_workers cs (start_worker cid name s) of
           (s', tr) \<Rightarrow> (s', Log INFO ''Starting log collector for container %s (%s)'' # tr))
      else start_workers cs s)"

definition discover :: "list_response \<Rightarrow> main_state \<Rightarrow> main_state \<times> effect list" where
  "discover r s =
     (case list_containers r of
        (containers, tr, _) \<Rightarrow>
          (case start_workers containers s of
             (s', tr') \<Rightarrow> (s', tr @ Log DEBUG ''Discovered containers: %s'' # tr')))"

text \<open>The clean-up: \<open>dead\<close> is computed first, then each dead id is removed.\<close>

definition dead_of :: "main_state \<Rightarrow> pystr list" where
  "dead_of s = map fst (filter (\<lambda>(cid, t). \<not> is_alive (pool s) t) (threads s))"

fun cleanup :: "pystr list \<Rightarrow> main_state \<Rightarrow> main_state \<times> effect list" where
  "cleanup [] s = (s, [])"
| "cleanup (cid # dead) s =
     (case cleanup dead (s\<lparr>active_streams := active_streams s - {cid},
                            threads := AList.delete cid (threads s)\<rparr>) of
        (s', tr) \<Rightarrow> (s', Log INFO ''Cleaning up dead log stream for %s'' # tr))"

definition sweep :: "main_state \<Rightarrow> main_state \<times> effect list" where
  "sweep s = cleanup (dead_of s) s"

text \<open>
  A worker's \<open>stream_logs\<close> call returns: its thread is not alive any more. Workers run
  concurrently with \<open>main\<close>, so this happens between any two steps of the loop.
\<close>

definition worker_exit :: "nat \<Rightarrow> main_state \<Rightarrow> main_state" where
  "worker_exit i s =
     (if i < length (pool s) then s\<lparr>pool := (pool s)[i := (pool s ! i)\<lparr>alive := False\<rparr>]\<rparr>
      else s)"

text \<open>
  One iteration of \<open>while True\<close>: the answer of the list call, the workers that end
  before the clean-up looks at them, and those that end after it, during the sleep.
  The loop never returns; \<open>main_loop\<close> runs its first iterations.
\<close>

record cycle =
  listing :: list_response
  exits_before_sweep :: "nat list"
  exits_during_sleep :: "nat list"

definition main_iteration :: "cycle \<Rightarrow> main_state \<Rightarrow> main_state \<times> effect list" where
  "main_iteration cy s =
     (case discover (listing cy) s of
        (s1, tr1) \<Rightarrow>
          (case sweep (fold worker_exit (exits_before_sweep cy) s1) of
             (s2, tr2) \<Rightarrow> (fold worker_exit (exits_during_sleep cy) s2, tr1 @ tr2)))"

fun main_loop :: "cycle list \<Rightarrow> main_state \<Rightarrow> main_state" where
  "main_loop [] s = s"
| "main_loop (cy # cys) s = main_loop cys (fst (main_iteration cy s))"

section \<open>The bookkeeping of \<open>main\<close>\<close>

text \<open>
  What holds of the two variables of \<open>main\<close> and the threads between any two steps of
  the loop: \<open>threads\<close> has one entry per key, its keys are \<open>active_streams\<close>, the entry
  of an id is a thread started for that id, and every thread that is alive is the entry
  of its id.
\<close>

definition wf_state :: "main_state \<Rightarrow> bool" where
  "wf_state s =
     (distinct (map fst (threads s))
      \<and> dom (map_of (threads s)) = active_streams s
      \<and> (\<forall>cid t. map_of (threads s) cid = Some t
            \<longrightarrow> t < length (pool s) \<and> target_cid (pool s ! t) = cid)
      \<and> (\<forall>i. i < length (pool s) \<and> alive (pool s ! i)
            \<longrightarrow> map_of (threads s) (target_cid (pool s ! i)) = Some i))"

text \<open>No two threads that are alive follow the same container id.\<close>

definition one_live_worker_per_id :: "main_state \<Rightarrow> bool" where
  "one_live_worker_per_id s =
     (\<forall>i j. i < length (pool s) \<and> j < length (pool s)
             \<and> alive (pool s ! i) \<and> alive (pool s ! j)
             \<and> target_cid (pool s ! i) = target_cid (pool s ! j) \<longrightarrow> i = j)"

section \<open>Example inputs\<close>

text \<open>The configuration with the module's defaults, and the same in local mode.\<close>

definition opensearch_cfg :: config where
  "opensearch_cfg =
     \<lparr>OPENSEARCH_INDEX_PREFIX = str ''podman-logs'', NODE_NAME = str ''podman-node'',
      AGENT_MODE = str ''opensearch'', opensearch_client = Some (str ''http://opensearch:9200'')\<rparr>"

definition local_cfg :: config where
  "local_cfg =
     \<lparr>OPENSEARCH_INDEX_PREFIX = str ''podman-logs'', NODE_NAME = str ''podman-node'',
      AGENT_MODE = str ''local'', opensearch_client = None\<rparr>"

text \<open>
  Two instants of 2024-03-07 UTC: noon in a zone at UTC, and 23:30 UTC in a zone one hour
  east of UTC, where the local date is already 2024-03-08.
\<close>

definition noon_utc :: instant where
  "noon_utc = \<lparr>epoch = 1709812800, gmtoff = 0\<rparr>"

definition late_evening_cet :: instant where
  "late_evening_cet = \<lparr>epoch = 1709854200, gmtoff = 3600\<rparr>"

text \<open>A \<open>send_log\<close> call at noon whose write succeeds, and one whose write raises.\<close>

definition write_ok :: sink_io where
  "write_ok = \<lparr>send_time = noon_utc, sink_ok = True\<rparr>"

definition write_fails :: sink_io where
  "write_fails = \<lparr>send_time = noon_utc, sink_ok = False\<rparr>"

text \<open>
  Container objects of a list answer: two with an identifier and a name, one that has
  the identifier of the first under the key \<open>ID\<close> and two names, and one whose identifier
  is empty. Two iterations of the loop in which no worker ends: the first
  list call reports one container, the second reports it again together with another.
\<close>

definition web_container :: container_json where
  "web_container = \<lparr>c_Id = Some (str ''abc123''), c_ID = None, c_Names = Some [str ''/web'']\<rparr>"

definition db_container :: container_json where
  "db_container = \<lparr>c_Id = Some (str ''def456''), c_ID = None, c_Names = Some [str ''/db'']\<rparr>"

definition web_container_again :: container_json where
  "web_container_again =
     \<lparr>c_Id = None, c_ID = Some (str ''abc123''), c_Names = Some [str ''/web2'', str ''/alias'']\<rparr>"

definition no_id_container :: container_json where
  "no_id_container = \<lparr>c_Id = Some [], c_ID = None, c_Names = Some [str ''ghost'']\<rparr>"

definition poll_1 :: cycle where
  "poll_1 = \<lparr>listing = ListResponse 200 (Some [web_container]),
             exits_before_sweep = [], exits_during_sleep = []\<rparr>"

definition poll_2 :: cycle where
  "poll_2 = \<lparr>listing = ListResponse 200 (Some [web_container, db_container]),
             exits_before_sweep = [], exits_during_sleep = []\<rparr>"

text \<open>
  An iteration in which the list call reports the first container again and the thread
  with handle 0 ends before the clean-up.
\<close>

definition web_worker_ends :: cycle where
  "web_worker_ends = \<lparr>listing = ListResponse 200 (Some [web_container]),
                      exits_before_sweep = [0], exits_during_sleep = []\<rparr>"

text \<open>
  Lines of a log stream: \<open>one\<close>, during which the write of the sink raises; \<open>two\<close>; an
  empty line; and a line with the byte \<open>0xff\<close>, which no UTF-8 text contains.
\<close>

definition first_line :: line_io where
  "first_line = \<lparr>raw_line = str ''one'', doc_time = noon_utc, sink = write_fails\<rparr>"

definition second_line :: line_io where
  "second_line = \<lparr>raw_line = str ''two'', doc_time = noon_utc, sink = write_ok\<rparr>"

definition empty_line :: line_io where
  "empty_line = \<lparr>raw_line = [], doc_time = noon_utc, sink = write_ok\<rparr>"

definition bad_line :: line_io where
  "bad_line = \<lparr>raw_line = [97, 255, 98], doc_time = noon_utc, sink = write_ok\<rparr>"

section \<open>Properties\<close>

lemma str_simps:
  "str [] = []" "str (c # cs) = of_char c # str cs"
  by (simp_all add: str_def)

subsection \<open>\<open>send_log\<close>\<close>

lemma send_log_local:
  assumes "AGENT_MODE cfg = str ''local''"
  shows "send_log cfg io h doc =
     (let msg = dict_get (h ! doc) (str ''message'') [];
          d = (if 300 < length msg
               then AList.update (str ''message'') (take 300 msg @ str ''...[truncated]'') (h ! doc)
               else h ! doc)
      in (h @ [d], [Print d], if sink_ok io then None else Some OSError))"
  using assms by (simp add: send_log_def alloc_def Let_def str_simps)

lemma send_log_no_client:
  assumes "AGENT_MODE cfg \<noteq> str ''local''" and "opensearch_client cfg = None"
  shows "send_log cfg io h doc =
     (h, [Log ERROR ''OpenSearch client not initialized, cannot send log''], None)"
  using assms by (simp add: send_log_def)

lemma send_log_opensearch:
  assumes "AGENT_MODE cfg \<noteq> str ''local''" and "opensearch_client cfg = Some c"
  shows "send_log cfg io h doc =
     (h, Index (OPENSEARCH_INDEX_PREFIX cfg @ str ''-''
                  @ strftime ''%Y.%m.%d'' (localtime (send_time io))) (h ! doc)
           # (if sink_ok io then [] else [Log ERROR ''Failed to index log line: %s'']), None)"
  using assms by (simp add: send_log_def Let_def)

lemma strftime_Ymd:
  "strftime ''%Y.%m.%d'' t =
     digits (nat (tm_year t)) @ str ''.'' @ pad2 (tm_mon t) @ str ''.'' @ pad2 (tm_mday t)"
  by (simp add: directive_def str_simps)

lemma localtime_utc: "gmtoff i = 0 \<Longrightarrow> localtime i = gmtime i"
  by (simp add: localtime_def gmtime_def)

text \<open>
  C4. In local mode \<open>send_log\<close> prints exactly one dict. When the message of the record
  has more than 300 characters, the printed message is its first 300 characters followed
  by the marker \<open>...[truncated]\<close>; when it has at most 300, the printed message is the
  message and the printed dict is the record as it is.
\<close>

theorem debug_sink_truncates:
  assumes "AGENT_MODE cfg = str ''local''"
    and "map_of (h ! doc) (str ''message'') = Some msg"
  shows "\<exists>d. fst (snd (send_log cfg io h doc)) = [Print d]
           \<and> map_of d (str ''message'')
               = Some (if 300 < length msg then take 300 msg @ str ''...[truncated]'' else msg)
           \<and> (if 300 < length msg then True else d = h ! doc)"
  using assms by (simp add: send_log_local dict_get_def Let_def update_Some_unfold)

text \<open>A message of 310 characters \<open>a\<close> is printed as 300 characters \<open>a\<close> and the marker.\<close>

theorem debug_sink_truncates_witness:
  "AGENT_MODE local_cfg = str ''local''
   \<and> map_of ([[(str ''message'', replicate 310 97)]] ! 0) (str ''message'')
       = Some (replicate 310 97)
   \<and> (\<exists>d. fst (snd (send_log local_cfg write_ok [[(str ''message'', replicate 310 97)]] 0)) = [Print d]
          \<and> map_of d (str ''message'') = Some (replicate 300 97 @ str ''...[truncated]''))"
  using debug_sink_truncates
          [of local_cfg "[[(str ''message'', replicate 310 97)]]" 0 "replicate 310 97" write_ok]
  by (simp add: local_cfg_def)

text \<open>
  C10. In local mode the record of the caller is the same object with the same items
  after the call, as is every other object that existed before: the truncation is done
  on a new object. Every field of the printed dict other than \<open>message\<close> is the field of
  the record.
\<close>

theorem debug_sink_frame:
  assumes "AGENT_MODE cfg = str ''local''" and "doc < length h"
  shows "fst (send_log cfg io h doc) ! doc = h ! doc
       \<and> take (length h) (fst (send_log cfg io h doc)) = h
       \<and> (\<exists>d. fst (snd (send_log cfg io h doc)) = [Print d]
              \<and> (\<forall>k. k \<noteq> str ''message'' \<longrightarrow> map_of d k = map_of (h ! doc) k))"
  using assms by (simp add: send_log_local Let_def nth_append update_conv')

theorem debug_sink_frame_witness:
  "AGENT_MODE local_cfg = str ''local''
   \<and> (0::nat) < length [[(str ''message'', replicate 310 97), (str ''node'', str ''n1'')]]
   \<and> fst (send_log local_cfg write_ok [[(str ''message'', replicate 310 97), (str ''node'', str ''n1'')]] 0) ! 0
       = [(str ''message'', replicate 310 97), (str ''node'', str ''n1'')]
   \<and> (\<exists>d. fst (snd (send_log local_cfg write_ok
                        [[(str ''message'', replicate 310 97), (str ''node'', str ''n1'')]] 0)) = [Print d]
          \<and> map_of d (str ''node'') = Some (str ''n1''))"
  using debug_sink_frame
          [of local_cfg 0 "[[(str ''message'', replicate 310 97), (str ''node'', str ''n1'')]]" write_ok]
  by (auto simp add: local_cfg_def str_simps)

text \<open>
  C1, as stated, fails: \<open>time.strftime\<close> without a time tuple formats the local time,
  not UTC. At 23:30 UTC on 2024-03-07, in a zone one hour east of UTC, the UTC date is
  2024-03-07 and the record goes to \<open>podman-logs-2024.03.08\<close>.
\<close>

theorem index_name_utc_counterexample:
  "strftime ''%Y.%m.%d'' (gmtime late_evening_cet) = str ''2024.03.07''
   \<and> fst (snd (send_log opensearch_cfg \<lparr>send_time = late_evening_cet, sink_ok = True\<rparr>
                  [[(str ''message'', str ''started'')]] 0))
       = [Index (str ''podman-logs-2024.03.08'') [(str ''message'', str ''started'')]]
   \<and> str ''podman-logs-2024.03.08'' \<noteq> str ''podman-logs-2024.03.07''"
  by code_simp

text \<open>
  C1, amended. In OpenSearch mode with a client, \<open>send_log\<close> calls
  \<open>opensearch_client.index\<close> once, on the index named by the configured prefix, a hyphen
  and the year, month and day of the local time of the call, month and day on two digits
  and separated by dots. The name is a function of the prefix and of these three numbers.
\<close>

theorem index_name_local_date:
  assumes "AGENT_MODE cfg \<noteq> str ''local''" and "opensearch_client cfg = Some c"
  shows "(\<exists>rest. fst (snd (send_log cfg io h doc))
            = Index (OPENSEARCH_INDEX_PREFIX cfg @ str ''-''
                       @ digits (nat (tm_year (localtime (send_time io)))) @ str ''.''
                       @ pad2 (tm_mon (localtime (send_time io))) @ str ''.''
                       @ pad2 (tm_mday (localtime (send_time io)))) (h ! doc) # rest)"
  using assms by (simp add: send_log_opensearch strftime_Ymd del: strftime.simps)

lemma noon_utc_date:
  "digits (nat (tm_year (localtime noon_utc))) @ str ''.''
     @ pad2 (tm_mon (localtime noon_utc)) @ str ''.'' @ pad2 (tm_mday (localtime noon_utc))
   = str ''2024.03.07''"
  by code_simp

text \<open>With the prefix \<open>podman-logs\<close>, at noon on 2024-03-07 in a zone at UTC.\<close>

theorem index_name_local_date_witness:
  "AGENT_MODE opensearch_cfg \<noteq> str ''local''
   \<and> opensearch_client opensearch_cfg = Some (str ''http://opensearch:9200'')
   \<and> (\<exists>rest. fst (snd (send_log opensearch_cfg write_ok [[(str ''message'', str ''started'')]] 0))
         = Index (str ''podman-logs'' @ str ''-'' @ str ''2024.03.07'')
             [(str ''message'', str ''started'')] # rest)"
  using index_name_local_date
          [of opensearch_cfg "str ''http://opensearch:9200''" write_ok
              "[[(str ''message'', str ''started'')]]" 0] noon_utc_date
  by (simp add: opensearch_cfg_def write_ok_def str_simps)

subsection \<open>\<open>list_containers\<close>\<close>

lemma fetch_containers_Inl:
  "(\<exists>e. fetch_containers r = Inl e) =
     (r = ListFailed \<or> (\<exists>status body. r = ListResponse status body
                            \<and> (400 \<le> status \<and> status < 600 \<or> body = None)))"
  by (auto simp add: fetch_containers_def split: list_response.splits option.splits)

lemma list_containers_ok:
  "fetch_containers r = Inr cs \<Longrightarrow> list_containers r = (collect cs [], [], None)"
  by (simp add: list_containers_def)

lemma list_containers_failed:
  "fetch_containers r = Inl e \<Longrightarrow>
     list_containers r = ([], [Log ERROR ''Error listing containers via Podman API: %s''], None)"
  by (simp add: list_containers_def)

lemma truthy_Some: "truthy v = (\<exists>x xs. v = Some (x # xs))"
  by (cases v) (auto simp add: truthy_def neq_Nil_conv)

lemma collect_Cons_id:
  "py_or (c_Id c) (c_ID c) = Some (x # xs) \<Longrightarrow>
     collect (c # cs) out
       = collect cs (AList.update (x # xs) (container_name c (Some (x # xs))) out)"
  by (simp add: Let_def)

lemma collect_Cons_no_id:
  "\<not> truthy (py_or (c_Id c) (c_ID c)) \<Longrightarrow> collect (c # cs) out = collect cs out"
  by (simp add: Let_def truthy_def split: option.splits list.splits)


lemma collect_keys:
  "fst ` set (collect cs out) =
     fst ` set out \<union> {cid. cid \<noteq> [] \<and> (\<exists>c\<in>set cs. py_or (c_Id c) (c_ID c) = Some cid)}"
proof (induction cs arbitrary: out)
  case Nil
  show ?case by simp
next
  case (Cons c cs)
  show ?case
  proof (cases "truthy (py_or (c_Id c) (c_ID c))")
    case True
    then obtain x xs where k: "py_or (c_Id c) (c_ID c) = Some (x # xs)"
      by (auto simp add: truthy_Some)
    have "fst ` set (collect (c # cs) out)
            = insert (x # xs) (fst ` set out)
                \<union> {cid. cid \<noteq> [] \<and> (\<exists>c\<in>set cs. py_or (c_Id c) (c_ID c) = Some cid)}"
      by (simp only: collect_Cons_id [OF k] Cons.IH dom_update) simp
    also have "\<dots> = fst ` set out
                \<union> {cid. cid \<noteq> [] \<and> (\<exists>c\<in>set (c # cs). py_or (c_Id c) (c_ID c) = Some cid)}"
      using k by auto
    finally show ?thesis .
  next
    case False
    then have n: "\<And>cid. py_or (c_Id c) (c_ID c) = Some cid \<Longrightarrow> cid = []"
      by (auto simp add: truthy_def)
    have "fst ` set (collect (c # cs) out)
            = fst ` set out
                \<union> {cid. cid \<noteq> [] \<and> (\<exists>c\<in>set cs. py_or (c_Id c) (c_ID c) = Some cid)}"
      by (simp only: collect_Cons_no_id [OF False] Cons.IH)
    also have "\<dots> = fst ` set out
                \<union> {cid. cid \<noteq> [] \<and> (\<exists>c\<in>set (c # cs). py_or (c_Id c) (c_ID c) = Some cid)}"
      using n by auto
    finally show ?thesis .
  qed
qed

lemma collect_distinct:
  "distinct (map fst out) \<Longrightarrow> distinct (map fst (collect cs out))"
proof (induction cs arbitrary: out)
  case Nil
  then show ?case by simp
next
  case (Cons c cs)
  show ?case
  proof (cases "truthy (py_or (c_Id c) (c_ID c))")
    case True
    then obtain x xs where k: "py_or (c_Id c) (c_ID c) = Some (x # xs)"
      by (auto simp add: truthy_Some)
    from Cons.prems have "distinct (map fst (AList.update (x # xs) (container_name c (Some (x # xs))) out))"
      by (rule distinct_update)
    then show ?thesis
      by (simp only: collect_Cons_id [OF k] Cons.IH)
  next
    case False
    from Cons.IH [OF Cons.prems] show ?thesis
      by (simp only: collect_Cons_no_id [OF False])
  qed
qed

lemma collect_filter:
  "collect (filter (\<lambda>c. truthy (py_or (c_Id c) (c_ID c))) cs) out = collect cs out"
proof (induction cs arbitrary: out)
  case Nil
  show ?case by simp
next
  case (Cons c cs)
  show ?case
  proof (cases "truthy (py_or (c_Id c) (c_ID c))")
    case True
    then obtain x xs where k: "py_or (c_Id c) (c_ID c) = Some (x # xs)"
      by (auto simp add: truthy_Some)
    from True have "filter (\<lambda>c. truthy (py_or (c_Id c) (c_ID c))) (c # cs)
                      = c # filter (\<lambda>c. truthy (py_or (c_Id c) (c_ID c))) cs"
      by simp
    then show ?thesis
      by (simp only: collect_Cons_id [OF k] Cons.IH)
  next
    case False
    then have "filter (\<lambda>c. truthy (py_or (c_Id c) (c_ID c))) (c # cs)
                 = filter (\<lambda>c. truthy (py_or (c_Id c) (c_ID c))) cs"
      by simp
    then show ?thesis
      by (simp only: collect_Cons_no_id [OF False] Cons.IH)
  qed
qed

lemma collect_lookup_other:
  assumes "\<forall>c\<in>set cs. py_or (c_Id c) (c_ID c) \<noteq> Some cid"
  shows "map_of (collect cs out) cid = map_of out cid"
  using assms
proof (induction cs arbitrary: out)
  case Nil
  show ?case by simp
next
  case (Cons c cs)
  from Cons.prems have rest: "\<forall>c\<in>set cs. py_or (c_Id c) (c_ID c) \<noteq> Some cid"
    and here: "py_or (c_Id c) (c_ID c) \<noteq> Some cid"
    by simp_all
  show ?case
  proof (cases "truthy (py_or (c_Id c) (c_ID c))")
    case True
    then obtain x xs where k: "py_or (c_Id c) (c_ID c) = Some (x # xs)"
      by (auto simp add: truthy_Some)
    with here have ne: "x # xs \<noteq> cid" by auto
    have "map_of (collect (c # cs) out) cid
            = map_of (AList.update (x # xs) (container_name c (Some (x # xs))) out) cid"
      by (simp only: collect_Cons_id [OF k] Cons.IH [OF rest])
    also have "\<dots> = map_of out cid"
      using ne by (simp add: update_conv')
    finally show ?thesis .
  next
    case False
    show ?thesis
      by (simp only: collect_Cons_no_id [OF False] Cons.IH [OF rest])
  qed
qed


lemma collect_append: "collect (as @ bs) out = collect bs (collect as out)"
proof (induction as arbitrary: out)
  case Nil
  show ?case by simp
next
  case (Cons a as)
  show ?case
  proof (cases "truthy (py_or (c_Id a) (c_ID a))")
    case True
    then obtain x xs where k: "py_or (c_Id a) (c_ID a) = Some (x # xs)"
      by (auto simp add: truthy_Some)
    have "collect ((a # as) @ bs) out
            = collect (as @ bs) (AList.update (x # xs) (container_name a (Some (x # xs))) out)"
      by (simp only: append_Cons collect_Cons_id [OF k])
    then show ?thesis
      by (simp only: Cons.IH collect_Cons_id [OF k])
  next
    case False
    have "collect ((a # as) @ bs) out = collect (as @ bs) out"
      by (simp only: append_Cons collect_Cons_no_id [OF False])
    then show ?thesis
      by (simp only: Cons.IH collect_Cons_no_id [OF False])
  qed
qed

lemma collect_lookup_last:
  assumes "py_or (c_Id c) (c_ID c) = Some (x # xs)"
    and "\<forall>c'\<in>set after. py_or (c_Id c') (c_ID c') \<noteq> Some (x # xs)"
  shows "map_of (collect (before @ c # after) out) (x # xs)
           = Some (container_name c (Some (x # xs)))"
proof -
  have "collect (before @ c # after) out
          = collect after (AList.update (x # xs) (container_name c (Some (x # xs)))
                             (collect before out))"
    by (simp only: collect_append collect_Cons_id [OF assms(1)])
  then show ?thesis
    by (simp add: collect_lookup_other [OF assms(2)] update_conv' del: collect.simps)
qed

subsection \<open>The discovery loop\<close>

lemma wf_init: "wf_state init_state"
  by (simp add: wf_state_def init_state_def)

lemma wf_one_live: "wf_state s \<Longrightarrow> one_live_worker_per_id s"
  unfolding wf_state_def one_live_worker_per_id_def
  by (metis option.inject)

lemma start_workers_Cons:
  "start_workers ((cid, name) # cs) s =
     (if cid \<notin> active_streams s
      then (fst (start_workers cs (start_worker cid name s)),
            Log INFO ''Starting log collector for container %s (%s)''
              # snd (start_workers cs (start_worker cid name s)))
      else start_workers cs s)"
  by (simp add: case_prod_beta)

lemma start_worker_simps:
  "pool (start_worker cid name s)
     = pool s @ [\<lparr>target_cid = cid, target_name = name, alive = True\<rparr>]"
  "active_streams (start_worker cid name s) = insert cid (active_streams s)"
  "threads (start_worker cid name s) = AList.update cid (length (pool s)) (threads s)"
  by (simp_all add: start_worker_def)

lemma wf_start_worker:
  assumes "wf_state s" and "cid \<notin> active_streams s"
  shows "wf_state (start_worker cid name s)"
proof -
  from assms have none: "map_of (threads s) cid = None"
    by (auto simp add: wf_state_def)
  have d: "distinct (map fst (threads (start_worker cid name s)))"
    using assms(1) by (simp add: wf_state_def start_worker_simps distinct_update)
  have a: "dom (map_of (threads (start_worker cid name s))) = active_streams (start_worker cid name s)"
    using assms(1) by (simp add: wf_state_def start_worker_simps update_conv')
  have b: "t < length (pool (start_worker cid name s))
           \<and> target_cid (pool (start_worker cid name s) ! t) = k"
    if "map_of (threads (start_worker cid name s)) k = Some t" for k t
  proof (cases "k = cid")
    case True
    with that show ?thesis
      by (auto simp add: start_worker_simps update_conv')
  next
    case False
    with that have "map_of (threads s) k = Some t"
      by (simp add: start_worker_simps update_conv')
    with assms(1) have "t < length (pool s) \<and> target_cid (pool s ! t) = k"
      by (simp add: wf_state_def)
    then show ?thesis
      by (simp add: start_worker_simps nth_append)
  qed
  have c: "map_of (threads (start_worker cid name s))
             (target_cid (pool (start_worker cid name s) ! i)) = Some i"
    if "i < length (pool (start_worker cid name s))"
      and "alive (pool (start_worker cid name s) ! i)" for i
  proof (cases "i < length (pool s)")
    case True
    with that have al: "alive (pool s ! i)"
      by (simp add: start_worker_simps nth_append)
    with True assms(1) have r: "map_of (threads s) (target_cid (pool s ! i)) = Some i"
      by (simp add: wf_state_def)
    with none have "target_cid (pool s ! i) \<noteq> cid" by auto
    with r True show ?thesis
      by (simp add: start_worker_simps nth_append update_conv')
  next
    case False
    with that(1) have "i = length (pool s)"
      by (simp add: start_worker_simps)
    then show ?thesis
      by (simp add: start_worker_simps update_conv')
  qed
  from d a b c show ?thesis
    unfolding wf_state_def by blast
qed

lemma wf_start_workers: "wf_state s \<Longrightarrow> wf_state (fst (start_workers cs s))"
proof (induction cs arbitrary: s)
  case Nil
  then show ?case by simp
next
  case (Cons p cs)
  obtain cid name where p: "p = (cid, name)" by (cases p)
  show ?case
    unfolding p start_workers_Cons
    using Cons.prems Cons.IH wf_start_worker by simp
qed

lemma start_workers_active:
  "active_streams (fst (start_workers cs s)) = active_streams s \<union> fst ` set cs"
proof (induction cs arbitrary: s)
  case Nil
  show ?case by simp
next
  case (Cons p cs)
  obtain cid name where p: "p = (cid, name)" by (cases p)
  show ?case
    unfolding p start_workers_Cons
    by (auto simp add: Cons.IH start_worker_simps)
qed

lemma start_workers_pool:
  "\<exists>new. pool (fst (start_workers cs s)) = pool s @ new
        \<and> (\<forall>w\<in>set new. alive w \<and> target_cid w \<notin> active_streams s
                          \<and> target_cid w \<in> fst ` set cs)"
proof (induction cs arbitrary: s)
  case Nil
  show ?case by simp
next
  case (Cons p cs)
  obtain cid name where p: "p = (cid, name)" by (cases p)
  show ?case
  proof (cases "cid \<in> active_streams s")
    case True
    from Cons.IH [of s] obtain new where
      "pool (fst (start_workers cs s)) = pool s @ new"
      "\<forall>w\<in>set new. alive w \<and> target_cid w \<notin> active_streams s \<and> target_cid w \<in> fst ` set cs"
      by blast
    with True show ?thesis
      unfolding p start_workers_Cons by auto
  next
    case False
    from Cons.IH [of "start_worker cid name s"] obtain new where
      n: "pool (fst (start_workers cs (start_worker cid name s)))
            = pool (start_worker cid name s) @ new"
      "\<forall>w\<in>set new. alive w \<and> target_cid w \<notin> active_streams (start_worker cid name s)
                       \<and> target_cid w \<in> fst ` set cs"
      by blast
    have "pool (fst (start_workers (p # cs) s))
            = pool s @ (\<lparr>target_cid = cid, target_name = name, alive = True\<rparr> # new)"
      unfolding p start_workers_Cons using False n(1) by (simp add: start_worker_simps)
    moreover have "\<forall>w\<in>set (\<lparr>target_cid = cid, target_name = name, alive = True\<rparr> # new).
                      alive w \<and> target_cid w \<notin> active_streams s \<and> target_cid w \<in> fst ` set (p # cs)"
      using False n(2) by (auto simp add: start_worker_simps p)
    ultimately show ?thesis by blast
  qed
qed


lemma start_workers_threads_keep:
  "cid \<in> active_streams s \<Longrightarrow>
     map_of (threads (fst (start_workers cs s))) cid = map_of (threads s) cid"
proof (induction cs arbitrary: s)
  case Nil
  show ?case by simp
next
  case (Cons p cs)
  obtain k name where p: "p = (k, name)" by (cases p)
  show ?case
  proof (cases "k \<in> active_streams s")
    case True
    with Cons show ?thesis
      unfolding p start_workers_Cons by simp
  next
    case False
    with Cons.prems have ne: "k \<noteq> cid" by auto
    from Cons.prems have "cid \<in> active_streams (start_worker k name s)"
      by (simp add: start_worker_simps)
    from Cons.IH [OF this] False ne show ?thesis
      unfolding p start_workers_Cons by (simp add: start_worker_simps update_conv')
  qed
qed

lemma start_workers_fresh:
  assumes "wf_state s" and "cid \<notin> active_streams s" and "map_of cs cid = Some name"
  shows "\<exists>t. length (pool s) \<le> t
            \<and> map_of (threads (fst (start_workers cs s))) cid = Some t
            \<and> pool (fst (start_workers cs s)) ! t
                = \<lparr>target_cid = cid, target_name = name, alive = True\<rparr>"
  using assms
proof (induction cs arbitrary: s)
  case Nil
  then show ?case by simp
next
  case (Cons p cs)
  obtain k nm where p: "p = (k, nm)" by (cases p)
  show ?case
  proof (cases "k = cid")
    case True
    with Cons.prems(3) p have nm: "nm = name" by simp
    let ?s1 = "start_worker cid name s"
    have in1: "cid \<in> active_streams ?s1" by (simp add: start_worker_simps)
    have keep: "map_of (threads (fst (start_workers cs ?s1))) cid = Some (length (pool s))"
      using start_workers_threads_keep [OF in1, of cs]
      by (simp add: start_worker_simps update_conv')
    from start_workers_pool [of cs ?s1] obtain new where
      "pool (fst (start_workers cs ?s1)) = pool ?s1 @ new" by blast
    then have "pool (fst (start_workers cs ?s1)) ! length (pool s)
                 = \<lparr>target_cid = cid, target_name = name, alive = True\<rparr>"
      by (simp add: start_worker_simps nth_append)
    with keep True nm Cons.prems(2) show ?thesis
      unfolding p start_workers_Cons by auto
  next
    case False
    with Cons.prems(3) p have m: "map_of cs cid = Some name" by simp
    show ?thesis
    proof (cases "k \<in> active_streams s")
      case True
      with Cons.IH [OF Cons.prems(1,2) m] show ?thesis
        unfolding p start_workers_Cons by simp
    next
      case nin: False
      let ?s1 = "start_worker k nm s"
      have w1: "wf_state ?s1" using Cons.prems(1) nin by (rule wf_start_worker)
      have n1: "cid \<notin> active_streams ?s1"
        using Cons.prems(2) False by (simp add: start_worker_simps)
      from Cons.IH [OF w1 n1 m] obtain t where
        "length (pool ?s1) \<le> t"
        "map_of (threads (fst (start_workers cs ?s1))) cid = Some t"
        "pool (fst (start_workers cs ?s1)) ! t
           = \<lparr>target_cid = cid, target_name = name, alive = True\<rparr>"
        by blast
      moreover from this(1) have "length (pool s) \<le> t"
        by (simp add: start_worker_simps)
      ultimately show ?thesis
        unfolding p start_workers_Cons using nin by auto
    qed
  qed
qed

lemma cleanup_pool: "pool (fst (cleanup dead s)) = pool s"
  by (induction dead arbitrary: s) (simp_all add: case_prod_beta)

lemma cleanup_active: "active_streams (fst (cleanup dead s)) = active_streams s - set dead"
  by (induction dead arbitrary: s) (auto simp add: case_prod_beta)

lemma cleanup_threads:
  "map_of (threads (fst (cleanup dead s))) cid
     = (if cid \<in> set dead then None else map_of (threads s) cid)"
  by (induction dead arbitrary: s) (auto simp add: delete_conv' case_prod_beta)

lemma cleanup_distinct:
  "distinct (map fst (threads s)) \<Longrightarrow> distinct (map fst (threads (fst (cleanup dead s))))"
  by (induction dead arbitrary: s) (auto simp add: distinct_delete case_prod_beta)

lemma dead_of_iff:
  assumes "distinct (map fst (threads s))"
  shows "cid \<in> set (dead_of s)
           = (\<exists>t. map_of (threads s) cid = Some t \<and> \<not> is_alive (pool s) t)"
  using assms by (auto simp add: dead_of_def image_iff)

lemma sweep_pool: "pool (fst (sweep s)) = pool s"
  by (simp add: sweep_def cleanup_pool)

lemma sweep_threads:
  assumes "distinct (map fst (threads s))"
  shows "map_of (threads (fst (sweep s))) cid
           = (case map_of (threads s) cid of
                None \<Rightarrow> None
              | Some t \<Rightarrow> if is_alive (pool s) t then Some t else None)"
  by (simp add: sweep_def cleanup_threads dead_of_iff [OF assms] split: option.splits)

lemma sweep_active:
  "active_streams (fst (sweep s)) = active_streams s - set (dead_of s)"
  by (simp add: sweep_def cleanup_active)

lemma wf_sweep:
  assumes "wf_state s"
  shows "wf_state (fst (sweep s))"
proof -
  from assms have d: "distinct (map fst (threads s))"
    by (simp add: wf_state_def)
  have d': "distinct (map fst (threads (fst (sweep s))))"
    using d by (simp add: sweep_def cleanup_distinct)
  have a: "dom (map_of (threads (fst (sweep s)))) = active_streams (fst (sweep s))"
  proof -
    have "dom (map_of (threads (fst (sweep s)))) = dom (map_of (threads s)) - set (dead_of s)"
      by (auto simp add: sweep_def cleanup_threads dom_def split: if_splits)
    with assms show ?thesis
      by (simp add: sweep_active wf_state_def)
  qed
  have b: "t < length (pool (fst (sweep s))) \<and> target_cid (pool (fst (sweep s)) ! t) = k"
    if "map_of (threads (fst (sweep s))) k = Some t" for k t
  proof -
    from that have "map_of (threads s) k = Some t"
      by (simp add: sweep_threads [OF d] split: option.splits if_splits)
    with assms show ?thesis
      by (simp add: wf_state_def sweep_pool)
  qed
  have c: "map_of (threads (fst (sweep s))) (target_cid (pool (fst (sweep s)) ! i)) = Some i"
    if "i < length (pool (fst (sweep s)))" and "alive (pool (fst (sweep s)) ! i)" for i
  proof -
    from that have i: "i < length (pool s)" and al: "alive (pool s ! i)"
      by (simp_all add: sweep_pool)
    with assms have "map_of (threads s) (target_cid (pool s ! i)) = Some i"
      by (simp add: wf_state_def)
    with i al show ?thesis
      by (simp add: sweep_threads [OF d] sweep_pool is_alive_def)
  qed
  from d' a b c show ?thesis
    unfolding wf_state_def by blast
qed

lemma worker_exit_simps:
  "threads (worker_exit i s) = threads s"
  "active_streams (worker_exit i s) = active_streams s"
  "length (pool (worker_exit i s)) = length (pool s)"
  by (simp_all add: worker_exit_def)

lemma worker_exit_pool:
  "j < length (pool s) \<Longrightarrow>
     pool (worker_exit i s) ! j = (if j = i then (pool s ! j)\<lparr>alive := False\<rparr> else pool s ! j)"
  by (simp add: worker_exit_def nth_list_update)

lemma wf_worker_exit:
  assumes "wf_state s"
  shows "wf_state (worker_exit i s)"
  using assms unfolding wf_state_def
  by (auto simp add: worker_exit_simps worker_exit_pool)

lemma fold_exit_simps:
  "threads (fold worker_exit xs s) = threads s"
  "active_streams (fold worker_exit xs s) = active_streams s"
  "length (pool (fold worker_exit xs s)) = length (pool s)"
  by (induction xs arbitrary: s) (simp_all add: worker_exit_simps)

lemma wf_fold_exit: "wf_state s \<Longrightarrow> wf_state (fold worker_exit xs s)"
  by (induction xs arbitrary: s) (simp_all add: wf_worker_exit)

lemma fold_exit_pool:
  "j < length (pool s) \<Longrightarrow>
     pool (fold worker_exit xs s) ! j
       = (if j \<in> set xs then (pool s ! j)\<lparr>alive := False\<rparr> else pool s ! j)"
proof (induction xs arbitrary: s)
  case Nil
  show ?case by simp
next
  case (Cons x xs)
  from Cons.prems have "j < length (pool (worker_exit x s))"
    by (simp add: worker_exit_simps)
  from Cons.IH [OF this] Cons.prems show ?case
    by (simp add: worker_exit_pool)
qed

lemma discover_eq:
  "fst (discover r s) = fst (start_workers (fst (list_containers r)) s)"
  by (simp add: discover_def case_prod_beta)

lemma wf_discover: "wf_state s \<Longrightarrow> wf_state (fst (discover r s))"
  by (simp add: discover_eq wf_start_workers)

lemma main_iteration_eq:
  "fst (main_iteration cy s)
     = fold worker_exit (exits_during_sleep cy)
         (fst (sweep (fold worker_exit (exits_before_sweep cy) (fst (discover (listing cy) s)))))"
  by (simp add: main_iteration_def case_prod_beta)

lemma wf_main_iteration: "wf_state s \<Longrightarrow> wf_state (fst (main_iteration cy s))"
  by (simp add: main_iteration_eq wf_fold_exit wf_sweep wf_discover)

lemma wf_main_loop: "wf_state s \<Longrightarrow> wf_state (main_loop cys s)"
  by (induction cys arbitrary: s) (simp_all add: wf_main_iteration)

lemma wf_reachable: "wf_state (main_loop cys init_state)"
  by (rule wf_main_loop [OF wf_init])

subsection \<open>Claims about \<open>list_containers\<close>\<close>

lemma container_name_with_id:
  "container_name c (Some (x # xs))
     = (case c_Names c of Some (n # ns) \<Rightarrow> n | _ \<Rightarrow> take 12 (x # xs))"
  by (simp add: container_name_def py_or_def truthy_def split: option.splits list.splits)

text \<open>
  C2, as stated, fails: nothing strips a leading \<open>/\<close>. For a container whose \<open>Names\<close> is
  \<open>["/web"]\<close> the name recorded is \<open>/web\<close>, not \<open>web\<close>.
\<close>

theorem container_name_keeps_slash_counterexample:
  "list_containers (ListResponse 200 (Some [web_container]))
     = ([(str ''abc123'', str ''/web'')], [], None)
   \<and> str ''/web'' \<noteq> str ''web''"
  by (simp add: list_containers_def fetch_containers_def web_container_def py_or_def truthy_def
        container_name_def str_simps)

text \<open>
  C2, amended. The name recorded under a non-empty identifier is the first element, as
  it is, of the \<open>Names\<close> array of the last container object of the list answer that has
  this identifier: of the object itself, unless a later object of the answer has the
  same identifier. When that \<open>Names\<close> array is missing or empty, the name is the first 12
  characters of the identifier.
\<close>

theorem container_name_is_first_name:
  assumes "fetch_containers r = Inr (before @ c # after)"
    and "py_or (c_Id c) (c_ID c) = Some (x # xs)"
    and "\<forall>c'\<in>set after. py_or (c_Id c') (c_ID c') \<noteq> Some (x # xs)"
  shows "map_of (fst (list_containers r)) (x # xs)
           = Some (case c_Names c of Some (n # ns) \<Rightarrow> n | _ \<Rightarrow> take 12 (x # xs))"
  using collect_lookup_last [OF assms(2,3), of before "[]"] assms(1)
  by (simp add: list_containers_ok container_name_with_id del: collect.simps)

text \<open>
  \<open>abc123\<close> listed once, with the name \<open>/web\<close>; and listed twice, where the name is the
  first name of the second object.
\<close>

theorem container_name_is_first_name_witness:
  "fetch_containers (ListResponse 200 (Some [web_container, db_container]))
     = Inr ([] @ web_container # [db_container])
   \<and> py_or (c_Id web_container) (c_ID web_container) = Some (str ''abc123'')
   \<and> py_or (c_Id db_container) (c_ID db_container) \<noteq> Some (str ''abc123'')
   \<and> map_of (fst (list_containers (ListResponse 200 (Some [web_container, db_container]))))
        (str ''abc123'') = Some (str ''/web'')
   \<and> fetch_containers (ListResponse 200 (Some [web_container, web_container_again, db_container]))
     = Inr ([web_container] @ web_container_again # [db_container])
   \<and> py_or (c_Id web_container_again) (c_ID web_container_again) = Some (str ''abc123'')
   \<and> map_of (fst (list_containers
                 (ListResponse 200 (Some [web_container, web_container_again, db_container]))))
        (str ''abc123'') = Some (str ''/web2'')"
  using container_name_is_first_name
          [of "ListResponse 200 (Some [web_container, db_container])"
              "[]" web_container "[db_container]" 97 "str ''bc123''"]
    container_name_is_first_name
          [of "ListResponse 200 (Some [web_container, web_container_again, db_container])"
              "[web_container]" web_container_again "[db_container]" 97 "str ''bc123''"]
  by (simp add: fetch_containers_def web_container_def web_container_again_def db_container_def
        py_or_def truthy_def str_simps)

text \<open>
  C9. The keys of the dict returned by \<open>list_containers\<close> are exactly the non-empty
  identifiers of the container objects of the answer (\<open>Id\<close>, or \<open>ID\<close> when \<open>Id\<close> is missing
  or empty). The objects without such an identifier change nothing: the result is the
  one of the answer without them. Every worker started by the discovery that follows is
  started for one of these keys.
\<close>

theorem containers_without_id_are_omitted:
  assumes "fetch_containers r = Inr cs"
  shows "fst ` set (fst (list_containers r))
           = {cid. cid \<noteq> [] \<and> (\<exists>c\<in>set cs. py_or (c_Id c) (c_ID c) = Some cid)}
       \<and> fst (list_containers
                (ListResponse 200 (Some (filter (\<lambda>c. truthy (py_or (c_Id c) (c_ID c))) cs))))
           = fst (list_containers r)
       \<and> (\<forall>i. length (pool s) \<le> i \<and> i < length (pool (fst (discover r s)))
              \<longrightarrow> target_cid (pool (fst (discover r s)) ! i)
                    \<in> {cid. cid \<noteq> [] \<and> (\<exists>c\<in>set cs. py_or (c_Id c) (c_ID c) = Some cid)})"
proof -
  have keys: "fst ` set (fst (list_containers r))
           = {cid. cid \<noteq> [] \<and> (\<exists>c\<in>set cs. py_or (c_Id c) (c_ID c) = Some cid)}"
    using assms by (simp add: list_containers_ok collect_keys)
  have "fetch_containers
          (ListResponse 200 (Some (filter (\<lambda>c. truthy (py_or (c_Id c) (c_ID c))) cs)))
          = Inr (filter (\<lambda>c. truthy (py_or (c_Id c) (c_ID c))) cs)"
    by (simp add: fetch_containers_def)
  then have filt: "fst (list_containers
                (ListResponse 200 (Some (filter (\<lambda>c. truthy (py_or (c_Id c) (c_ID c))) cs))))
           = fst (list_containers r)"
    using assms by (simp add: list_containers_ok collect_filter)
  have new: "target_cid (pool (fst (discover r s)) ! i) \<in> fst ` set (fst (list_containers r))"
    if "length (pool s) \<le> i" and "i < length (pool (fst (discover r s)))" for i
  proof -
    from start_workers_pool [of "fst (list_containers r)" s] obtain new where
      n: "pool (fst (discover r s)) = pool s @ new"
      "\<forall>w\<in>set new. target_cid w \<in> fst ` set (fst (list_containers r))"
      unfolding discover_eq by blast
    from that n(1) have "pool (fst (discover r s)) ! i = new ! (i - length (pool s))"
      and "i - length (pool s) < length new"
      by (simp_all add: nth_append)
    with n(2) show ?thesis by (metis nth_mem)
  qed
  from keys filt new show ?thesis by (simp only: keys [symmetric]) blast
qed

theorem containers_without_id_are_omitted_witness:
  "fetch_containers (ListResponse 200 (Some [no_id_container, web_container]))
     = Inr [no_id_container, web_container]
   \<and> fst (list_containers (ListResponse 200 (Some [no_id_container, web_container])))
       = [(str ''abc123'', str ''/web'')]
   \<and> fst (list_containers (ListResponse 200
             (Some (filter (\<lambda>c. truthy (py_or (c_Id c) (c_ID c)))
                      [no_id_container, web_container]))))
       = fst (list_containers (ListResponse 200 (Some [no_id_container, web_container])))"
  using containers_without_id_are_omitted
          [of "ListResponse 200 (Some [no_id_container, web_container])"
              "[no_id_container, web_container]" init_state]
  by (simp add: fetch_containers_def list_containers_def no_id_container_def
        web_container_def py_or_def truthy_def container_name_def str_simps)

text \<open>
  C5. When \<open>session.get\<close> raises, when the status is an error status, or when the body
  cannot be decoded, \<open>list_containers\<close> logs an error and returns the empty dict without
  raising; the discovery then starts no worker, and the iteration of \<open>main\<close> ends in the
  state in which it ends when the list answer is the empty array.
\<close>

theorem list_failure_is_no_containers:
  assumes "r = ListFailed \<or> r = ListResponse status None
             \<or> (r = ListResponse status body \<and> 400 \<le> status \<and> status < 600)"
  shows "list_containers r
           = ([], [Log ERROR ''Error listing containers via Podman API: %s''], None)
       \<and> fst (discover r s) = s
       \<and> fst (main_iteration \<lparr>listing = r, exits_before_sweep = xs, exits_during_sleep = ys\<rparr> s)
           = fst (main_iteration \<lparr>listing = ListResponse 200 (Some []),
                                   exits_before_sweep = xs, exits_during_sleep = ys\<rparr> s)"
proof -
  from assms have "\<exists>e. fetch_containers r = Inl e"
    unfolding fetch_containers_Inl by auto
  then obtain e where "fetch_containers r = Inl e" ..
  then have l: "list_containers r
           = ([], [Log ERROR ''Error listing containers via Podman API: %s''], None)"
    by (rule list_containers_failed)
  then have d: "fst (discover r s) = s"
    by (simp add: discover_eq)
  have "fst (discover (ListResponse 200 (Some [])) s) = s"
    by (simp add: discover_eq list_containers_def fetch_containers_def)
  with l d show ?thesis
    by (simp add: main_iteration_eq)
qed

theorem list_failure_is_no_containers_witness:
  "list_containers ListFailed
     = ([], [Log ERROR ''Error listing containers via Podman API: %s''], None)
   \<and> fst (discover ListFailed (main_loop [poll_1] init_state)) = main_loop [poll_1] init_state
   \<and> list_containers (ListResponse 200 None)
     = ([], [Log ERROR ''Error listing containers via Podman API: %s''], None)
   \<and> list_containers (ListResponse 503 (Some [web_container]))
     = ([], [Log ERROR ''Error listing containers via Podman API: %s''], None)"
  using list_failure_is_no_containers [of ListFailed 200 None "main_loop [poll_1] init_state" "[]" "[]"]
    list_failure_is_no_containers [of "ListResponse 200 None" 200 None init_state "[]" "[]"]
    list_failure_is_no_containers
      [of "ListResponse 503 (Some [web_container])" 503 "Some [web_container]" init_state "[]" "[]"]
  by simp

subsection \<open>Claims about the discovery loop\<close>

lemma main_loop_two_polls:
  "map (\<lambda>w. (target_cid w, target_name w, alive w)) (pool (main_loop [poll_1] init_state))
     = [(str ''abc123'', str ''/web'', True)]
   \<and> map (\<lambda>w. (target_cid w, target_name w, alive w)) (pool (main_loop [poll_1, poll_2] init_state))
     = [(str ''abc123'', str ''/web'', True), (str ''def456'', str ''/db'', True)]
   \<and> threads (main_loop [poll_1, poll_2] init_state) = [(str ''abc123'', 0), (str ''def456'', 1)]"
  by code_simp

text \<open>
  C3. In the state \<open>s\<close> before any iteration of the loop, in the state \<open>s1\<close> after its
  discovery, in the state \<open>s2\<close> after any workers have ended, and in the state \<open>s3\<close> after
  the clean-up, no two threads that are alive follow the same container id, and
  \<open>threads\<close> has one entry per id, its keys being \<open>active_streams\<close>. A thread started by the
  discovery is started for an id that was not in \<open>active_streams\<close>; no entry is removed
  by the discovery or by a worker ending; and the clean-up removes an entry only when
  its thread is not alive.
\<close>

theorem one_worker_per_container:
  "let s = main_loop cys init_state;
       s1 = fst (discover r s);
       s2 = fold worker_exit xs s1;
       s3 = fst (sweep s2)
   in one_live_worker_per_id s \<and> one_live_worker_per_id s1
      \<and> one_live_worker_per_id s2 \<and> one_live_worker_per_id s3
      \<and> distinct (map fst (threads s)) \<and> fst ` set (threads s) = active_streams s
      \<and> (\<forall>i. length (pool s) \<le> i \<and> i < length (pool s1)
             \<longrightarrow> target_cid (pool s1 ! i) \<notin> active_streams s)
      \<and> (\<forall>cid t. map_of (threads s) cid = Some t \<longrightarrow> map_of (threads s2) cid = Some t)
      \<and> (\<forall>cid t. map_of (threads s2) cid = Some t \<and> map_of (threads s3) cid \<noteq> Some t
             \<longrightarrow> \<not> alive (pool s2 ! t))"
proof -
  define s where "s = main_loop cys init_state"
  define s1 where "s1 = fst (discover r s)"
  define s2 where "s2 = fold worker_exit xs s1"
  define s3 where "s3 = fst (sweep s2)"
  have w: "wf_state s" unfolding s_def by (rule wf_reachable)
  then have w1: "wf_state s1" unfolding s1_def by (rule wf_discover)
  then have w2: "wf_state s2" unfolding s2_def by (rule wf_fold_exit)
  then have w3: "wf_state s3" unfolding s3_def by (rule wf_sweep)
  from w have d: "distinct (map fst (threads s))"
    and a: "fst ` set (threads s) = active_streams s"
    by (simp_all add: wf_state_def dom_map_of_conv_image_fst)
  have started: "target_cid (pool s1 ! i) \<notin> active_streams s"
    if "length (pool s) \<le> i" and "i < length (pool s1)" for i
  proof -
    from start_workers_pool [of "fst (list_containers r)" s] obtain new where
      n: "pool s1 = pool s @ new" "\<forall>w\<in>set new. target_cid w \<notin> active_streams s"
      unfolding s1_def discover_eq by blast
    from that n(1) have "pool s1 ! i = new ! (i - length (pool s))"
      and "i - length (pool s) < length new"
      by (simp_all add: nth_append)
    with n(2) show ?thesis by (metis nth_mem)
  qed
  have kept: "map_of (threads s2) cid = Some t" if "map_of (threads s) cid = Some t" for cid t
  proof -
    from that w have "cid \<in> active_streams s"
      by (auto simp add: wf_state_def)
    from start_workers_threads_keep [OF this] that show ?thesis
      unfolding s2_def s1_def discover_eq by (simp add: fold_exit_simps)
  qed
  have removed: "\<not> alive (pool s2 ! t)"
    if "map_of (threads s2) cid = Some t" and "map_of (threads s3) cid \<noteq> Some t" for cid t
  proof -
    from w2 have d2: "distinct (map fst (threads s2))" by (simp add: wf_state_def)
    from that have "\<not> is_alive (pool s2) t"
      unfolding s3_def by (auto simp add: sweep_threads [OF d2])
    moreover from w2 that(1) have "t < length (pool s2)" by (simp add: wf_state_def)
    ultimately show ?thesis by (simp add: is_alive_def)
  qed
  from w w1 w2 w3 d a started kept removed
  have "one_live_worker_per_id s \<and> one_live_worker_per_id s1
      \<and> one_live_worker_per_id s2 \<and> one_live_worker_per_id s3
      \<and> distinct (map fst (threads s)) \<and> fst ` set (threads s) = active_streams s
      \<and> (\<forall>i. length (pool s) \<le> i \<and> i < length (pool s1)
             \<longrightarrow> target_cid (pool s1 ! i) \<notin> active_streams s)
      \<and> (\<forall>cid t. map_of (threads s) cid = Some t \<longrightarrow> map_of (threads s2) cid = Some t)
      \<and> (\<forall>cid t. map_of (threads s2) cid = Some t \<and> map_of (threads s3) cid \<noteq> Some t
             \<longrightarrow> \<not> alive (pool s2 ! t))"
    using wf_one_live by blast
  then show ?thesis
    unfolding Let_def s_def s1_def s2_def s3_def .
qed

text \<open>
  The container \<open>abc123\<close> is listed by two polls in a row and \<open>def456\<close> by the second one:
  one worker each.
\<close>

theorem one_worker_per_container_witness:
  "one_live_worker_per_id (main_loop [poll_1, poll_2] init_state)
   \<and> map (\<lambda>w. (target_cid w, target_name w, alive w)) (pool (main_loop [poll_1, poll_2] init_state))
       = [(str ''abc123'', str ''/web'', True), (str ''def456'', str ''/db'', True)]"
  using one_worker_per_container [of "[poll_1, poll_2]" ListFailed "[]"] main_loop_two_polls
  by (simp add: Let_def)


lemma except_log_None: "snd (snd (except_log msg r)) = None"
  by (cases r) (simp add: except_log_def split: option.splits)

lemma stream_logs_returns: "snd (snd (stream_logs cfg cid name strm h)) = None"
  by (simp add: stream_logs_def case_prod_beta except_log_None)

lemma stream_logs_last:
  "last (fst (snd (stream_logs cfg cid name strm h))) = Log INFO ''Log stream ended for %s (%s)''"
  by (simp add: stream_logs_def case_prod_beta)

text \<open>
  C7. Whatever the log stream does (it cannot be opened, the status is an error status,
  reading raises, or it is closed, with or without lines), the call of \<open>stream_logs\<close>
  returns without an exception, its last action being the log line that the stream has
  ended; the thread is then not alive. When the thread registered for a container id
  has ended before an iteration, or ends before its clean-up, the id is in neither
  variable of \<open>main\<close> after that iteration, and a discovery whose list answer has the id starts a new thread for
  it, with the name of that answer.
\<close>

theorem ended_worker_is_reaped_and_restarted:
  assumes "map_of (threads (main_loop cys init_state)) cid = Some t"
    and "t \<in> set (exits_before_sweep cy) \<or> \<not> alive (pool (main_loop cys init_state) ! t)"
    and "map_of (fst (list_containers r)) cid = Some name"
  shows "snd (snd (stream_logs cfg cid nm strm h)) = None
       \<and> last (fst (snd (stream_logs cfg cid nm strm h)))
           = Log INFO ''Log stream ended for %s (%s)''
       \<and> cid \<notin> active_streams (fst (main_iteration cy (main_loop cys init_state)))
       \<and> map_of (threads (fst (main_iteration cy (main_loop cys init_state)))) cid = None
       \<and> (\<exists>t'. length (pool (fst (main_iteration cy (main_loop cys init_state)))) \<le> t'
              \<and> map_of (threads (fst (discover r
                    (fst (main_iteration cy (main_loop cys init_state)))))) cid = Some t'
              \<and> pool (fst (discover r (fst (main_iteration cy (main_loop cys init_state))))) ! t'
                  = \<lparr>target_cid = cid, target_name = name, alive = True\<rparr>)"
proof -
  define s where "s = main_loop cys init_state"
  define s1 where "s1 = fst (discover (listing cy) s)"
  define s2 where "s2 = fold worker_exit (exits_before_sweep cy) s1"
  define s3 where "s3 = fst (sweep s2)"
  define s4 where "s4 = fst (main_iteration cy s)"
  have s4: "s4 = fold worker_exit (exits_during_sleep cy) s3"
    unfolding s4_def s3_def s2_def s1_def by (rule main_iteration_eq)
  have w: "wf_state s" unfolding s_def by (rule wf_reachable)
  then have w1: "wf_state s1" unfolding s1_def by (rule wf_discover)
  then have w2: "wf_state s2" unfolding s2_def by (rule wf_fold_exit)
  then have w3: "wf_state s3" unfolding s3_def by (rule wf_sweep)
  then have w4: "wf_state s4" unfolding s4 by (rule wf_fold_exit)
  from assms(1) have reg: "map_of (threads s) cid = Some t" unfolding s_def .
  with w have "cid \<in> active_streams s" by (auto simp add: wf_state_def)
  from start_workers_threads_keep [OF this] reg
  have reg1: "map_of (threads s1) cid = Some t"
    unfolding s1_def discover_eq by simp
  then have reg2: "map_of (threads s2) cid = Some t"
    unfolding s2_def by (simp add: fold_exit_simps)
  from w reg have t: "t < length (pool s)" by (simp add: wf_state_def)
  from start_workers_pool [of "fst (list_containers (listing cy))" s] obtain new where
    "pool s1 = pool s @ new"
    unfolding s1_def discover_eq by blast
  with t have t1: "t < length (pool s1)" and same: "pool s1 ! t = pool s ! t"
    by (simp_all add: nth_append)
  from assms(2) same have "t \<in> set (exits_before_sweep cy) \<or> \<not> alive (pool s1 ! t)"
    unfolding s_def by simp
  with t1 have dead: "\<not> alive (pool s2 ! t)"
    unfolding s2_def by (auto simp add: fold_exit_pool)
  from w2 have d2: "distinct (map fst (threads s2))" by (simp add: wf_state_def)
  from reg2 dead have gone3: "map_of (threads s3) cid = None"
    unfolding s3_def by (simp add: sweep_threads [OF d2] is_alive_def)
  then have gone: "map_of (threads s4) cid = None"
    unfolding s4 by (simp add: fold_exit_simps)
  with w4 have out: "cid \<notin> active_streams s4"
    by (auto simp add: wf_state_def)
  from start_workers_fresh [OF w4 out assms(3)]
  have "\<exists>t'. length (pool s4) \<le> t'
              \<and> map_of (threads (fst (discover r s4))) cid = Some t'
              \<and> pool (fst (discover r s4)) ! t'
                  = \<lparr>target_cid = cid, target_name = name, alive = True\<rparr>"
    unfolding discover_eq .
  with gone out stream_logs_returns [of cfg cid nm strm h] stream_logs_last [of cfg cid nm strm h]
  show ?thesis
    unfolding s4_def s_def by simp
qed


lemma web_worker_restart:
  "map_of (threads (main_loop [poll_1] init_state)) (str ''abc123'') = Some 0
   \<and> map_of (fst (list_containers (listing poll_2))) (str ''abc123'') = Some (str ''/web'')
   \<and> map (\<lambda>w. (target_cid w, alive w))
         (pool (fst (discover (listing poll_2)
                  (fst (main_iteration web_worker_ends (main_loop [poll_1] init_state))))))
       = [(str ''abc123'', False), (str ''abc123'', True), (str ''def456'', True)]"
  by code_simp

lemma stream_failures:
  "stream_logs opensearch_cfg (str ''abc123'') (str ''/web'') OpenFailed []
     = ([], [Log INFO ''Starting log stream for %s (%s)'',
             Log ERROR ''Error streaming logs for %s (%s): %s'',
             Log INFO ''Log stream ended for %s (%s)''], None)
   \<and> stream_logs opensearch_cfg (str ''abc123'') (str ''/web'') (Opened 404 [] EOF) []
     = ([], [Log INFO ''Starting log stream for %s (%s)'',
             Log ERROR ''Error streaming logs for %s (%s): %s'',
             Log INFO ''Log stream ended for %s (%s)''], None)
   \<and> stream_logs opensearch_cfg (str ''abc123'') (str ''/web'') (Opened 200 [] Broken) []
     = ([], [Log INFO ''Starting log stream for %s (%s)'',
             Log ERROR ''Error streaming logs for %s (%s): %s'',
             Log INFO ''Log stream ended for %s (%s)''], None)
   \<and> stream_logs opensearch_cfg (str ''abc123'') (str ''/web'') (Opened 200 [] EOF) []
     = ([], [Log INFO ''Starting log stream for %s (%s)'',
             Log INFO ''Log stream ended for %s (%s)''], None)"
  by (simp add: stream_logs_def stream_body_def except_log_def)

text \<open>
  The worker of \<open>abc123\<close> ends, its stream closed without a line; the next discovery
  starts a second thread for \<open>abc123\<close>.
\<close>

theorem ended_worker_is_reaped_and_restarted_witness:
  "map_of (threads (main_loop [poll_1] init_state)) (str ''abc123'') = Some 0
   \<and> (0::nat) \<in> set (exits_before_sweep web_worker_ends)
   \<and> map_of (fst (list_containers (listing poll_2))) (str ''abc123'') = Some (str ''/web'')
   \<and> stream_logs opensearch_cfg (str ''abc123'') (str ''/web'') (Opened 200 [] EOF) []
     = ([], [Log INFO ''Starting log stream for %s (%s)'',
             Log INFO ''Log stream ended for %s (%s)''], None)
   \<and> str ''abc123'' \<notin> active_streams (fst (main_iteration web_worker_ends (main_loop [poll_1] init_state)))
   \<and> map (\<lambda>w. (target_cid w, alive w))
         (pool (fst (discover (listing poll_2)
                  (fst (main_iteration web_worker_ends (main_loop [poll_1] init_state))))))
       = [(str ''abc123'', False), (str ''abc123'', True), (str ''def456'', True)]"
  using ended_worker_is_reaped_and_restarted
          [of "[poll_1]" "str ''abc123''" 0 web_worker_ends "listing poll_2" "str ''/web''"
              opensearch_cfg "str ''/web''" "Opened 200 [] EOF" "[]"]
    web_worker_restart stream_failures
  by (simp add: web_worker_ends_def)

subsection \<open>Claims about \<open>stream_logs\<close>\<close>

lemma sent_append: "sent (a @ b) = sent a @ sent b"
  by (induction a rule: sent.induct) simp_all

lemma sent_send_log: "sent (fst (snd (send_log cfg io h doc))) = []"
  by (simp add: send_log_def alloc_def Let_def)

lemma send_log_raises:
  "snd (snd (send_log cfg io h doc))
     = (if AGENT_MODE cfg = str ''local'' \<and> \<not> sink_ok io then Some OSError else None)"
  by (simp add: send_log_def alloc_def Let_def)

lemma stream_lines_empty:
  "raw_line l = [] \<Longrightarrow>
     stream_lines cfg cid name e (l # ls) h = stream_lines cfg cid name e ls h"
  by simp

lemma stream_lines_line:
  assumes "raw_line l \<noteq> []"
  shows "stream_lines cfg cid name e (l # ls) h =
     (case snd (snd (send_log cfg (sink l) (h @ [make_doc cfg cid name l]) (length h))) of
        Some x \<Rightarrow>
          (fst (send_log cfg (sink l) (h @ [make_doc cfg cid name l]) (length h)),
           SendLog (make_doc cfg cid name l)
             # fst (snd (send_log cfg (sink l) (h @ [make_doc cfg cid name l]) (length h))),
           Some x)
      | None \<Rightarrow>
          (fst (stream_lines cfg cid name e ls
                  (fst (send_log cfg (sink l) (h @ [make_doc cfg cid name l]) (length h)))),
           SendLog (make_doc cfg cid name l)
             # fst (snd (send_log cfg (sink l) (h @ [make_doc cfg cid name l]) (length h)))
             @ fst (snd (stream_lines cfg cid name e ls
                  (fst (send_log cfg (sink l) (h @ [make_doc cfg cid name l]) (length h))))),
           snd (snd (stream_lines cfg cid name e ls
                  (fst (send_log cfg (sink l) (h @ [make_doc cfg cid name l]) (length h)))))))"
  using assms by (simp add: alloc_def split: prod.splits option.splits)

lemma stream_lines_sent_prefix:
  "prefix (sent (fst (snd (stream_lines cfg cid name e ls h))))
     (map (make_doc cfg cid name) (filter (\<lambda>l. raw_line l \<noteq> []) ls))"
proof (induction ls arbitrary: h)
  case Nil
  show ?case by simp
next
  case (Cons l ls)
  show ?case
  proof (cases "raw_line l = []")
    case True
    with Cons.IH show ?thesis by (simp only: stream_lines_empty) simp
  next
    case False
    show ?thesis
      using Cons.IH False
      by (simp add: stream_lines_line sent_append sent_send_log del: stream_lines.simps
            split: option.splits)
  qed
qed

lemma stream_lines_sent_all:
  assumes "AGENT_MODE cfg = str ''local'' \<longrightarrow> (\<forall>l\<in>set ls. sink_ok (sink l))"
  shows "sent (fst (snd (stream_lines cfg cid name e ls h)))
           = map (make_doc cfg cid name) (filter (\<lambda>l. raw_line l \<noteq> []) ls)"
  using assms
proof (induction ls arbitrary: h)
  case Nil
  show ?case by simp
next
  case (Cons l ls)
  from Cons.prems
  have rest: "AGENT_MODE cfg = str ''local'' \<longrightarrow> (\<forall>l\<in>set ls. sink_ok (sink l))"
    and ok: "AGENT_MODE cfg = str ''local'' \<longrightarrow> sink_ok (sink l)"
    by simp_all
  show ?case
  proof (cases "raw_line l = []")
    case True
    with Cons.IH [OF rest] show ?thesis by (simp only: stream_lines_empty) simp
  next
    case False
    from ok have "snd (snd (send_log cfg (sink l) h' d)) = None" for h' d
      by (simp add: send_log_raises)
    then show ?thesis
      using Cons.IH [OF rest] False
      by (simp add: stream_lines_line sent_append sent_send_log del: stream_lines.simps)
  qed
qed

lemma stream_logs_sent:
  assumes "\<not> (400 \<le> status \<and> status < 600)"
  shows "sent (fst (snd (stream_logs cfg cid name (Opened status ls e) h)))
           = sent (fst (snd (stream_lines cfg cid name e ls h)))"
proof -
  obtain h' tr r where sl: "stream_lines cfg cid name e ls h = (h', tr, r)"
    by (cases "stream_lines cfg cid name e ls h") auto
  with assms show ?thesis
    by (cases r) (auto simp add: stream_logs_def stream_body_def except_log_def sent_append)
qed

lemma decode_utf8_nonempty: "bs \<noteq> [] \<Longrightarrow> decode_utf8 bs \<noteq> []"
  by (cases bs) (simp_all split: list.splits)

lemma make_doc_fields:
  "map_of (make_doc cfg cid name l) (str ''message'') = Some (decode_utf8 (raw_line l))"
  "map_of (make_doc cfg cid name l) (str ''container_id'') = Some cid"
  "map_of (make_doc cfg cid name l) (str ''container_name'') = Some name"
  "map_of (make_doc cfg cid name l) (str ''node'') = Some (NODE_NAME cfg)"
  by (simp_all add: make_doc_def str_simps)


text \<open>
  C6. For a stream that was opened, the records handed to \<open>send_log\<close> are, in order and
  one each, the records of the non-empty lines read: those of all non-empty lines of
  the stream when no exception leaves \<open>send_log\<close> (any mode but the local one, or every
  write succeeding), and of the first of them otherwise. Empty lines give no record.
  The record of a line has the decoded line as \<open>message\<close>, the container id and name of
  the worker and the configured node name; decoding cannot fail and gives a non-empty
  text for a non-empty line.
\<close>

theorem every_line_becomes_one_record:
  assumes "\<not> (400 \<le> status \<and> status < 600)"
  shows "prefix (sent (fst (snd (stream_logs cfg cid name (Opened status ls e) h))))
           (map (make_doc cfg cid name) (filter (\<lambda>l. raw_line l \<noteq> []) ls))
       \<and> ((AGENT_MODE cfg = str ''local'' \<longrightarrow> (\<forall>l\<in>set ls. sink_ok (sink l)))
            \<longrightarrow> sent (fst (snd (stream_logs cfg cid name (Opened status ls e) h)))
                  = map (make_doc cfg cid name) (filter (\<lambda>l. raw_line l \<noteq> []) ls))
       \<and> (\<forall>l. map_of (make_doc cfg cid name l) (str ''message'')
                  = Some (decode_utf8 (raw_line l))
              \<and> map_of (make_doc cfg cid name l) (str ''container_id'') = Some cid
              \<and> map_of (make_doc cfg cid name l) (str ''container_name'') = Some name
              \<and> map_of (make_doc cfg cid name l) (str ''node'') = Some (NODE_NAME cfg)
              \<and> (raw_line l \<noteq> [] \<longrightarrow> decode_utf8 (raw_line l) \<noteq> []))"
  using assms
  by (simp add: stream_logs_sent stream_lines_sent_prefix stream_lines_sent_all make_doc_fields
        decode_utf8_nonempty)

lemma not_local: "AGENT_MODE opensearch_cfg \<noteq> str ''local''"
  by (simp add: opensearch_cfg_def str_simps)

lemma decode_bad_line: "decode_utf8 (raw_line bad_line) = [97, 65533, 98]"
  by (simp add: bad_line_def)

lemma decode_ascii: "\<forall>b\<in>set bs. b < 128 \<Longrightarrow> decode_utf8 bs = bs"
  by (induction bs) simp_all

lemma decode_lines:
  "decode_utf8 (raw_line first_line) = str ''one''"
  "decode_utf8 (raw_line second_line) = str ''two''"
  by (simp_all add: first_line_def second_line_def decode_ascii str_simps)

lemma bad_line_messages:
  "map (\<lambda>d. map_of d (str ''message''))
     (sent (fst (snd (stream_logs opensearch_cfg (str ''abc123'') (str ''/web'')
                        (Opened 200 [empty_line, bad_line, second_line] EOF) []))))
     = [Some [97, 65533, 98], Some (str ''two'')]"
proof -
  have "filter (\<lambda>l. raw_line l \<noteq> []) [empty_line, bad_line, second_line]
          = [bad_line, second_line]"
    by (simp add: empty_line_def bad_line_def second_line_def str_simps)
  then have "sent (fst (snd (stream_logs opensearch_cfg (str ''abc123'') (str ''/web'')
                        (Opened 200 [empty_line, bad_line, second_line] EOF) [])))
          = map (make_doc opensearch_cfg (str ''abc123'') (str ''/web'')) [bad_line, second_line]"
    by (simp add: stream_logs_sent stream_lines_sent_all not_local del: stream_lines.simps)
  then show ?thesis
    by (simp add: make_doc_fields decode_bad_line decode_lines)
qed

text \<open>
  An empty line, a line with the byte \<open>0xff\<close> and a line \<open>two\<close>: two records, the first
  with U+FFFD in place of the byte.
\<close>

theorem every_line_becomes_one_record_witness:
  "\<not> (400 \<le> (200::nat) \<and> (200::nat) < 600)
   \<and> sent (fst (snd (stream_logs opensearch_cfg (str ''abc123'') (str ''/web'')
                       (Opened 200 [empty_line, bad_line, second_line] EOF) [])))
       = map (make_doc opensearch_cfg (str ''abc123'') (str ''/web''))
           (filter (\<lambda>l. raw_line l \<noteq> []) [empty_line, bad_line, second_line])
   \<and> map (\<lambda>d. map_of d (str ''message''))
        (sent (fst (snd (stream_logs opensearch_cfg (str ''abc123'') (str ''/web'')
                           (Opened 200 [empty_line, bad_line, second_line] EOF) []))))
       = [Some [97, 65533, 98], Some (str ''two'')]"
proof -
  have st: "\<not> (400 \<le> (200::nat) \<and> (200::nat) < 600)" by simp
  from every_line_becomes_one_record
          [OF st, of opensearch_cfg "str ''abc123''" "str ''/web''"
              "[empty_line, bad_line, second_line]" EOF "[]"] not_local
  have "sent (fst (snd (stream_logs opensearch_cfg (str ''abc123'') (str ''/web'')
                       (Opened 200 [empty_line, bad_line, second_line] EOF) [])))
       = map (make_doc opensearch_cfg (str ''abc123'') (str ''/web''))
           (filter (\<lambda>l. raw_line l \<noteq> []) [empty_line, bad_line, second_line])"
    by blast
  with bad_line_messages st show ?thesis
    by (simp del: stream_lines.simps)
qed

lemma stream_logs_write_fails:
  assumes "AGENT_MODE cfg = str ''local''" and "\<not> (400 \<le> status \<and> status < 600)"
    and "raw_line l \<noteq> []" and "\<not> sink_ok (sink l)"
  shows "sent (fst (snd (stream_logs cfg cid name (Opened status (l # ls) e) h)))
           = [make_doc cfg cid name l]
       \<and> Log ERROR ''Error streaming logs for %s (%s): %s''
           \<in> set (fst (snd (stream_logs cfg cid name (Opened status (l # ls) e) h)))"
  using assms
  by (simp add: stream_logs_def stream_body_def except_log_def stream_lines_line
        send_log_raises sent_append sent_send_log del: stream_lines.simps)

text \<open>
  C8 does not hold in local mode. When the \<open>print\<close> of the first line raises, the
  exception leaves \<open>send_log\<close>, \<open>stream_logs\<close> logs it and ends: the second line is never
  handed over. In OpenSearch mode, with the same lines and the write of the first one
  failing, both lines are handed over.
\<close>

theorem debug_sink_failure_ends_worker:
  "map (\<lambda>d. map_of d (str ''message''))
     (sent (fst (snd (stream_logs local_cfg (str ''abc123'') (str ''/web'')
                        (Opened 200 [first_line, second_line] EOF) []))))
     = [Some (str ''one'')]
   \<and> Log ERROR ''Error streaming logs for %s (%s): %s''
       \<in> set (fst (snd (stream_logs local_cfg (str ''abc123'') (str ''/web'')
                          (Opened 200 [first_line, second_line] EOF) [])))
   \<and> map (\<lambda>d. map_of d (str ''message''))
       (sent (fst (snd (stream_logs opensearch_cfg (str ''abc123'') (str ''/web'')
                          (Opened 200 [first_line, second_line] EOF) []))))
       = [Some (str ''one''), Some (str ''two'')]"
proof -
  have l: "AGENT_MODE local_cfg = str ''local''" by (simp add: local_cfg_def)
  have f: "raw_line first_line \<noteq> []" "\<not> sink_ok (sink first_line)"
    by (simp_all add: first_line_def write_fails_def str_simps)
  have s: "raw_line second_line \<noteq> []"
    by (simp add: second_line_def str_simps)
  from stream_logs_write_fails [OF l _ f, of 200 "str ''abc123''" "str ''/web''" "[second_line]" EOF "[]"]
  have a: "sent (fst (snd (stream_logs local_cfg (str ''abc123'') (str ''/web'')
                        (Opened 200 [first_line, second_line] EOF) [])))
             = [make_doc local_cfg (str ''abc123'') (str ''/web'') first_line]"
    and b: "Log ERROR ''Error streaming logs for %s (%s): %s''
       \<in> set (fst (snd (stream_logs local_cfg (str ''abc123'') (str ''/web'')
                          (Opened 200 [first_line, second_line] EOF) [])))"
    by simp_all
  have c: "sent (fst (snd (stream_logs opensearch_cfg (str ''abc123'') (str ''/web'')
                        (Opened 200 [first_line, second_line] EOF) [])))
          = map (make_doc opensearch_cfg (str ''abc123'') (str ''/web'')) [first_line, second_line]"
    using f(1) s
    by (simp add: stream_logs_sent stream_lines_sent_all not_local del: stream_lines.simps)
  from a b c show ?thesis
    by (simp add: make_doc_fields decode_lines del: stream_lines.simps)
qed

end
